theory Spec2Isabelle
  imports Main
begin

section \<open>Strings (Go package strings, on byte strings)\<close>

text \<open>
  Go strings are byte sequences; they are modelled as \<open>string\<close> (a list of characters).
  \<open>HasPrefix\<close>, \<open>HasSuffix\<close> and \<open>Contains\<close> are the library predicates the source calls.
\<close>

fun HasPrefix :: "string \<Rightarrow> string \<Rightarrow> bool" where
  "HasPrefix s [] = True"
| "HasPrefix [] (p # ps) = False"
| "HasPrefix (c # cs) (p # ps) = (c = p \<and> HasPrefix cs ps)"

definition HasSuffix :: "string \<Rightarrow> string \<Rightarrow> bool" where
  "HasSuffix s suffix = HasPrefix (rev s) (rev suffix)"

fun Contains :: "string \<Rightarrow> string \<Rightarrow> bool" where
  "Contains [] substr = (substr = [])"
| "Contains (c # cs) substr = (HasPrefix (c # cs) substr \<or> Contains cs substr)"

text \<open>
  \<open>strings.ReplaceAll s old new\<close>: every non-overlapping instance of \<open>old\<close>, found from
  left to right, is replaced by \<open>new\<close>. For an empty \<open>old\<close> the library inserts \<open>new\<close>
  before every byte and at the end.
\<close>

function ReplaceAll :: "string \<Rightarrow> string \<Rightarrow> string \<Rightarrow> string" where
  "ReplaceAll [] old new = (if old = [] then new else [])"
| "ReplaceAll (c # cs) old new =
     (if old = [] then new @ c # ReplaceAll cs old new
      else if HasPrefix (c # cs) old
        then new @ ReplaceAll (drop (length old) (c # cs)) old new
        else c # ReplaceAll cs old new)"
  by pat_completeness auto
termination
  by (relation "measure (\<lambda>(s, old, new). length s)") (auto simp: neq_Nil_conv)

text \<open>\<open>filepath.Join\<close> of two clean, non-empty elements, with the separator of Unix.\<close>

definition filepath_Join :: "string \<Rightarrow> string \<Rightarrow> string" where
  "filepath_Join a b = a @ ''/'' @ b"

section \<open>Time formatting (Go package time)\<close>

text \<open>
  The calendar date of \<open>time.Now()\<close>. \<open>appendInt\<close> is the library's zero-padded decimal
  writer, used by \<open>Format\<close> for the layout elements \<open>2006\<close> (width 4), \<open>01\<close> and \<open>02\<close>
  (width 2).
\<close>

record date =
  year :: int
  month :: nat
  day :: nat

definition digit_char :: "nat \<Rightarrow> char" where
  "digit_char n = ''0123456789'' ! (n mod 10)"

function digits :: "nat \<Rightarrow> string" where
  "digits n = (if n < 10 then [digit_char n] else digits (n div 10) @ [digit_char (n mod 10)])"
  by pat_completeness auto
termination
  by (relation "measure id") auto

declare digits.simps [simp del]

definition appendInt :: "int \<Rightarrow> nat \<Rightarrow> string" where
  "appendInt x width =
     (let ds = digits (nat \<bar>x\<bar>)
      in (if x < 0 then ''-'' else '''') @ replicate (width - length ds) (CHR ''0'') @ ds)"

text \<open>\<open>t.Format("logs-2006-01-02.log")\<close>: the layout's only elements are the year, the
  zero-padded month and the zero-padded day; every other byte is copied.\<close>

definition Format_logName :: "date \<Rightarrow> string" where
  "Format_logName t =
     ''logs-'' @ appendInt (year t) 4 @ ''-'' @ appendInt (int (month t)) 2
       @ ''-'' @ appendInt (int (day t)) 2 @ ''.log''"

section \<open>The logger facade (logger.go)\<close>

datatype Level = DebugLevel | InfoLevel | WarnLevel | ErrorLevel
  | DPanicLevel | PanicLevel | FatalLevel

definition INFO :: string where "INFO = ''info''"
definition WARN :: string where "WARN = ''warn''"
definition ERROR :: string where "ERROR = ''error''"
definition DEBUG :: string where "DEBUG = ''debug''"

text \<open>The rotating file sink of lumberjack, as the source configures it, and the fan-out
  writer of \<open>zapcore.NewMultiWriteSyncer\<close>.\<close>

record lumberjack =
  Filename :: string
  MaxSize :: int
  MaxBackups :: int
  MaxAge :: int
  Compress :: bool
  LocalTime :: bool

datatype WriteSyncer = Stdout | Rotating lumberjack

text \<open>
  A \<open>*zap.Logger\<close>: the core's writer and minimum level, and the options the source
  passes or changes (\<open>AddCaller\<close>, \<open>AddCallerSkip\<close>, \<open>AddStacktrace\<close>).
\<close>

record zap_Logger =
  core_writer :: "WriteSyncer list"
  core_level :: Level
  addCaller :: bool
  callerSkip :: int
  addStack :: "Level option"

text \<open>
  The struct \<open>Logger\<close>. \<open>once\<close> is the state of the \<open>sync.Once\<close> it points to (whether
  \<open>Do\<close> has already run a function); \<open>Log\<close> is a pointer and may be nil.
\<close>

record Logger =
  fileName :: string
  maxSize :: int
  maxBackup :: int
  maxAge :: int
  compress :: bool
  level :: string
  localTime :: bool
  once :: bool
  Log :: "zap_Logger option"

definition newDefaultLogger :: Logger where
  "newDefaultLogger =
     \<lparr> fileName = ''logs/logs.log'',
       maxSize = 100,
       maxBackup = 7,
       maxAge = 30,
       compress = False,
       level = INFO,
       localTime = True,
       once = False,
       Log = None \<rparr>"

definition getWriter :: "date \<Rightarrow> Logger \<Rightarrow> WriteSyncer list" where
  "getWriter now l =
     (let logName = Format_logName now;
          filename = ReplaceAll (fileName l) ''logs.log'' logName
      in [Stdout,
          Rotating \<lparr> Filename = filename,
                     MaxSize = maxSize l,
                     MaxBackups = maxBackup l,
                     MaxAge = maxAge l,
                     Compress = compress l,
                     LocalTime = localTime l \<rparr>])"

text \<open>The path of the rotating file among the sinks of a writer.\<close>

fun rotating_path :: "WriteSyncer list \<Rightarrow> string option" where
  "rotating_path [] = None"
| "rotating_path (Stdout # ws) = rotating_path ws"
| "rotating_path (Rotating lj # ws) = Some (Filename lj)"

text \<open>
  \<open>zap.New(core, opts...)\<close> and \<open>(*zap.Logger).WithOptions(opts...)\<close>: the options are
  applied in order to a copy of the logger. A new logger adds no caller and no stack trace
  until an option says so.
\<close>

datatype zap_Option = AddCaller | AddCallerSkip int | AddStacktrace Level

fun zap_apply :: "zap_Option \<Rightarrow> zap_Logger \<Rightarrow> zap_Logger" where
  "zap_apply AddCaller z = z\<lparr>addCaller := True\<rparr>"
| "zap_apply (AddCallerSkip n) z = z\<lparr>callerSkip := callerSkip z + n\<rparr>"
| "zap_apply (AddStacktrace lv) z = z\<lparr>addStack := Some lv\<rparr>"

definition WithOptions :: "zap_Logger \<Rightarrow> zap_Option list \<Rightarrow> zap_Logger" where
  "WithOptions z opts = fold zap_apply opts z"

definition zap_New :: "WriteSyncer list \<Rightarrow> Level \<Rightarrow> zap_Option list \<Rightarrow> zap_Logger" where
  "zap_New w lv opts =
     WithOptions \<lparr> core_writer = w, core_level = lv, addCaller = False,
                   callerSkip = 0, addStack = None \<rparr> opts"

text \<open>
  What initialisation does to the world outside the \<open>Logger\<close>: the lines printed on the
  console by \<open>fmt.Println\<close>, and the loggers built by \<open>zap.New\<close>, one for each run of the
  closure given to \<open>once.Do\<close>.
\<close>

record world =
  console :: "string list"
  built :: "zap_Logger list"

definition empty_world :: world where
  "empty_world = \<lparr> console = [], built = [] \<rparr>"

text \<open>
  \<open>custom\<close>. The parser \<open>zapcore.Level.UnmarshalText\<close> belongs to the zap library and is a
  parameter: \<open>None\<close> is its error return. \<open>now\<close> is the date of \<open>time.Now()\<close>.
  \<open>once.Do(f)\<close> runs \<open>f\<close> when no earlier \<open>Do\<close> on this \<open>Once\<close> has run a function.
\<close>

definition custom ::
    "(string \<Rightarrow> Level option) \<Rightarrow> date \<Rightarrow> Logger \<Rightarrow> world \<Rightarrow> Logger \<times> world" where
  "custom UnmarshalText now l w =
     (case UnmarshalText (level l) of
        None \<Rightarrow>
          (l, w\<lparr>console := console w @
                 [''Logger init error: invalid log level. Please check the level setting.'']\<rparr>)
      | Some lv \<Rightarrow>
          if once l then (l, w)
          else
            (let z = zap_New (getWriter now l) lv
                       [AddCaller, AddCallerSkip 1, AddStacktrace ErrorLevel]
             in (l\<lparr>Log := Some z, once := True\<rparr>, w\<lparr>built := built w @ [z]\<rparr>)))"

subsection \<open>Options (the functional options of the facade)\<close>

text \<open>
  An \<open>Option\<close> is a closure over one value; the interface has an unexported method, so the
  options of the package are the values of its constructors, the six functions of the
  option file. (The adapter's test also calls \<open>WithTimeZone\<close>, which that file does not
  define; it is left out.)
\<close>

datatype Option =
    WithFileName string
  | WithMaxSize int
  | WithMaxBackup int
  | WithMaxAge int
  | WithCompress bool
  | WithLevel string

fun apply_Option :: "Option \<Rightarrow> Logger \<Rightarrow> Logger" where
  "apply_Option (WithFileName fileName') l = l\<lparr>fileName := fileName'\<rparr>"
| "apply_Option (WithMaxSize maxSize') l = l\<lparr>maxSize := maxSize'\<rparr>"
| "apply_Option (WithMaxBackup maxBackup') l = l\<lparr>maxBackup := maxBackup'\<rparr>"
| "apply_Option (WithMaxAge maxAge') l = l\<lparr>maxAge := maxAge'\<rparr>"
| "apply_Option (WithCompress compress') l = l\<lparr>compress := compress'\<rparr>"
| "apply_Option (WithLevel level') l = l\<lparr>level := level'\<rparr>"

text \<open>The loop \<open>for _, opt := range opts { opt.apply(logger) }\<close>; \<open>apply_Option\<close> is the
  method \<open>apply\<close> (a reserved word here).\<close>

fun apply_opts :: "Option list \<Rightarrow> Logger \<Rightarrow> Logger" where
  "apply_opts [] l = l"
| "apply_opts (opt # opts) l = apply_opts opts (apply_Option opt l)"

definition NewLogger ::
    "(string \<Rightarrow> Level option) \<Rightarrow> date \<Rightarrow> Option list \<Rightarrow> world \<Rightarrow> Logger \<times> world" where
  "NewLogger UnmarshalText now opts w =
     (let logger = newDefaultLogger;
          logger = apply_opts opts logger
      in custom UnmarshalText now logger w)"

text \<open>
  A run of the initialisation routine on one \<open>Logger\<close>, with configuration changes in
  between: each step either applies an option or calls \<open>custom\<close> at some date.
\<close>

datatype step = Configure Option | Init date

fun run_steps ::
    "(string \<Rightarrow> Level option) \<Rightarrow> step list \<Rightarrow> Logger \<times> world \<Rightarrow> Logger \<times> world" where
  "run_steps U [] lw = lw"
| "run_steps U (Configure opt # ss) (l, w) = run_steps U ss (apply_Option opt l, w)"
| "run_steps U (Init now # ss) (l, w) = run_steps U ss (custom U now l w)"

subsection \<open>Emission\<close>

text \<open>
  Go errors: the sentinel \<open>gorm.ErrRecordNotFound\<close>, any other error with its text, and an
  error that wraps another one. \<open>errors.Is\<close> follows the chain of wrapped errors.
\<close>

datatype goerror = ErrRecordNotFound | OtherError string | Wrapped string goerror

fun errors_Is :: "goerror \<Rightarrow> goerror \<Rightarrow> bool" where
  "errors_Is (Wrapped m e) target = (Wrapped m e = target \<or> errors_Is e target)"
| "errors_Is e target = (e = target)"

text \<open>The fields \<open>zap.String\<close>, \<open>zap.Int64\<close> and \<open>zap.Error\<close> (whose key is \<open>error\<close>).\<close>

datatype Field = zap_String string string | zap_Int64 string int | zap_NamedError string goerror

definition zap_Error :: "goerror \<Rightarrow> Field" where
  "zap_Error err = zap_NamedError ''error'' err"

text \<open>
  A record handed to the zap logger: its level, message and fields, and the caller skip of
  the logger it went through when that logger adds the caller. Whether the core writes it
  (its level against the core's minimum level) is decided by zap afterwards.
\<close>

record Entry =
  entry_level :: Level
  entry_message :: string
  entry_fields :: "Field list"
  entry_skip :: "int option"

datatype panic = NilPointerDereference

text \<open>A method of \<open>*zap.Logger\<close> called on a nil pointer panics inside zap; on a logger it
  hands over one entry.\<close>

definition zap_entry :: "zap_Logger \<Rightarrow> Level \<Rightarrow> string \<Rightarrow> Field list \<Rightarrow> Entry" where
  "zap_entry z lv msg fs =
     \<lparr> entry_level = lv, entry_message = msg, entry_fields = fs,
       entry_skip = (if addCaller z then Some (callerSkip z) else None) \<rparr>"

definition zap_log ::
    "zap_Logger option \<Rightarrow> Level \<Rightarrow> string \<Rightarrow> Field list \<Rightarrow> Entry list \<Rightarrow> panic + Entry list" where
  "zap_log lg lv msg fs out =
     (case lg of
        None \<Rightarrow> Inl NilPointerDereference
      | Some z \<Rightarrow> Inr (out @ [zap_entry z lv msg fs]))"

text \<open>
  \<open>jsonString\<close>. \<open>json.Marshal\<close> is a parameter; it returns the bytes and the error, here
  the text of \<open>err.Error()\<close>, \<open>None\<close> for nil.
\<close>

definition jsonString ::
    "('v \<Rightarrow> string \<times> string option) \<Rightarrow> Logger \<Rightarrow> 'v \<Rightarrow> Entry list
       \<Rightarrow> panic + (string \<times> Entry list)" where
  "jsonString Marshal l v out =
     (let (b, err) = Marshal v
      in case err of
           Some e \<Rightarrow>
             (case zap_log (Log l) ErrorLevel ''Logger'' [zap_String ''JSON marshal error'' e] out of
                Inl p \<Rightarrow> Inl p
              | Inr out' \<Rightarrow> Inr (b, out'))
         | None \<Rightarrow> Inr (b, out))"

definition Dump ::
    "('v \<Rightarrow> string \<times> string option) \<Rightarrow> Logger \<Rightarrow> 'v \<Rightarrow> string list \<Rightarrow> Entry list
       \<Rightarrow> panic + Entry list" where
  "Dump Marshal l v msgs out =
     (case jsonString Marshal l v out of
        Inl p \<Rightarrow> Inl p
      | Inr (valueString, out') \<Rightarrow>
          if length msgs > 0
          then zap_log (Log l) WarnLevel ''Dump'' [zap_String (msgs ! 0) valueString] out'
          else zap_log (Log l) WarnLevel ''Dump'' [zap_String ''data'' valueString] out')"

section \<open>The database adapter (gorm.go)\<close>

text \<open>Durations are counts of nanoseconds.\<close>

definition Millisecond :: int where
  "Millisecond = 1000000"

record GormLogger =
  ZapLogger :: "zap_Logger option"
  SlowThreshold :: int

datatype GormOption = WithSlowThreshold int

fun apply_GormOption :: "GormOption \<Rightarrow> GormLogger \<Rightarrow> GormLogger" where
  "apply_GormOption (WithSlowThreshold times') l = l\<lparr>SlowThreshold := times'\<rparr>"

definition NewGormLogger :: "Logger \<Rightarrow> GormOption list \<Rightarrow> GormLogger" where
  "NewGormLogger logger opts =
     fold apply_GormOption opts \<lparr> ZapLogger = Log logger, SlowThreshold = 200 * Millisecond \<rparr>"

text \<open>
  The call stack as \<open>runtime.Caller\<close> numbers it inside \<open>logger()\<close>: frame 0 is \<open>logger\<close>
  itself, frame 1 the method of the adapter that called it, frame 2 the caller of that
  method. \<open>runtime.Caller i\<close> is not ok beyond the last frame.
\<close>

record Frame =
  frame_file :: string
  frame_line :: nat

definition runtime_Caller :: "Frame list \<Rightarrow> nat \<Rightarrow> Frame option" where
  "runtime_Caller stack i = (if i < length stack then Some (stack ! i) else None)"

definition gormPackage :: string where
  "gormPackage = filepath_Join ''gorm.io'' ''gorm''"

definition zapGormPackage :: string where
  "zapGormPackage = filepath_Join ''moul.io'' ''zapgorm2''"

text \<open>The loop of \<open>logger()\<close> from index \<open>i\<close> on; \<open>zl\<close> is \<open>l.ZapLogger\<close>.\<close>

function logger_loop :: "zap_Logger \<Rightarrow> zap_Logger \<Rightarrow> Frame list \<Rightarrow> nat \<Rightarrow> zap_Logger" where
  "logger_loop zl clone stack i =
     (if i < 15 then
        (case runtime_Caller stack i of
           None \<Rightarrow> logger_loop zl clone stack (i + 1)
         | Some fr \<Rightarrow>
             if HasSuffix (frame_file fr) ''_test.go'' then logger_loop zl clone stack (i + 1)
             else if Contains (frame_file fr) gormPackage then logger_loop zl clone stack (i + 1)
             else if Contains (frame_file fr) zapGormPackage then logger_loop zl clone stack (i + 1)
             else WithOptions clone [AddCallerSkip (int i)])
      else zl)"
  by pat_completeness auto
termination
  by (relation "measure (\<lambda>(zl, clone, stack, i). 15 - i)") auto

declare logger_loop.simps [simp del]

definition logger :: "GormLogger \<Rightarrow> Frame list \<Rightarrow> panic + zap_Logger" where
  "logger l stack =
     (case ZapLogger l of
        None \<Rightarrow> Inl NilPointerDereference
      | Some zl \<Rightarrow>
          (let clone = WithOptions zl [AddCallerSkip (- 2)]
           in Inr (logger_loop zl clone stack 2)))"

text \<open>One emission \<open>l.logger().Warn(msg, fields...)\<close> (or \<open>Error\<close>, \<open>Debug\<close>).\<close>

definition logger_log ::
    "GormLogger \<Rightarrow> Frame list \<Rightarrow> Level \<Rightarrow> string \<Rightarrow> Field list \<Rightarrow> Entry list
       \<Rightarrow> panic + Entry list" where
  "logger_log l stack lv msg fs out =
     (case logger l stack of
        Inl p \<Rightarrow> Inl p
      | Inr lg \<Rightarrow> zap_log (Some lg) lv msg fs out)"

text \<open>
  \<open>Trace\<close>. \<open>elapsed\<close> is \<open>time.Since(begin)\<close>, \<open>fc\<close> the pair the callback returns;
  \<open>stack\<close> is the call stack its calls of \<open>logger()\<close> see, the same from frame 2 on.
  \<open>microsecondsStr\<close> formats a floating-point quotient and is a parameter. The three
  steps are the error branch (which may extend \<open>logFields\<close>), the slow log and the
  unconditional debug record.
\<close>

definition Trace ::
    "(int \<Rightarrow> string) \<Rightarrow> GormLogger \<Rightarrow> Frame list \<Rightarrow> int \<Rightarrow> string \<times> int \<Rightarrow> goerror option
       \<Rightarrow> Entry list \<Rightarrow> panic + Entry list" where
  "Trace microsecondsStr l stack elapsed fc err out =
     (let (sql, rows) = fc;
          logFields = [zap_String ''sql'' sql,
                       zap_String ''time'' (microsecondsStr elapsed),
                       zap_Int64 ''rows'' rows];
          r1 = (case err of
                  None \<Rightarrow> Inr (logFields, out)
                | Some e \<Rightarrow>
                    if errors_Is e ErrRecordNotFound
                    then (case logger_log l stack WarnLevel ''Database ErrRecordNotFound''
                                 logFields out of
                            Inl p \<Rightarrow> Inl p
                          | Inr out' \<Rightarrow> Inr (logFields, out'))
                    else (let logFields = logFields @ [zap_Error e]
                          in case logger_log l stack ErrorLevel ''Database Error''
                                    logFields out of
                               Inl p \<Rightarrow> Inl p
                             | Inr out' \<Rightarrow> Inr (logFields, out')))
      in case r1 of
           Inl p \<Rightarrow> Inl p
         | Inr (logFields, out1) \<Rightarrow>
             (case (if SlowThreshold l \<noteq> 0 \<and> elapsed > SlowThreshold l
                    then logger_log l stack WarnLevel ''Database Slow Log'' logFields out1
                    else Inr out1) of
                Inl p \<Rightarrow> Inl p
              | Inr out2 \<Rightarrow> logger_log l stack DebugLevel ''Database Query'' logFields out2))"

text \<open>
  The frame zap reports as the caller of an entry emitted by \<open>Trace\<close>: with caller skip
  \<open>k\<close>, the frame \<open>k\<close> levels above \<open>Trace\<close>, which is frame 1 of the stack.
\<close>

definition entry_caller :: "Frame list \<Rightarrow> Entry \<Rightarrow> Frame option" where
  "entry_caller stack e =
     (case entry_skip e of
        None \<Rightarrow> None
      | Some k \<Rightarrow> if 0 \<le> 1 + k \<and> nat (1 + k) < length stack
                  then Some (stack ! nat (1 + k)) else None)"

text \<open>The entries of a log with a given message tag.\<close>

definition tagged :: "string \<Rightarrow> Entry list \<Rightarrow> Entry list" where
  "tagged msg out = filter (\<lambda>e. entry_message e = msg) out"

section \<open>Notions used to state the properties\<close>

text \<open>The configuration field an option writes.\<close>

datatype config_field = F_fileName | F_maxSize | F_maxBackup | F_maxAge | F_compress | F_level

fun option_field :: "Option \<Rightarrow> config_field" where
  "option_field (WithFileName _) = F_fileName"
| "option_field (WithMaxSize _) = F_maxSize"
| "option_field (WithMaxBackup _) = F_maxBackup"
| "option_field (WithMaxAge _) = F_maxAge"
| "option_field (WithCompress _) = F_compress"
| "option_field (WithLevel _) = F_level"

text \<open>
  The state of the one-time build: either nothing is built, the \<open>Once\<close> is unused and \<open>Log\<close>
  is nil, or the \<open>Once\<close> is used and \<open>Log\<close> is the one logger ever built.
\<close>

definition built_once :: "Logger \<times> world \<Rightarrow> bool" where
  "built_once lw =
     (case Log (fst lw) of
        None \<Rightarrow> \<not> once (fst lw) \<and> built (snd lw) = []
      | Some z \<Rightarrow> once (fst lw) \<and> built (snd lw) = [z])"

text \<open>The files the walk of \<open>logger()\<close> passes over, with the two package paths written out.\<close>

definition skipped_file :: "string \<Rightarrow> bool" where
  "skipped_file f =
     (HasSuffix f ''_test.go'' \<or> Contains f ''gorm.io/gorm'' \<or> Contains f ''moul.io/zapgorm2'')"

text \<open>The level and the fields of an entry.\<close>

definition level_fields :: "Entry \<Rightarrow> Level \<times> Field list" where
  "level_fields e = (entry_level e, entry_fields e)"

text \<open>
  The walk as claim C2 words it, to compare with \<open>logger\<close>: the first frame from 2 to 14
  whose file is not of this package (\<open>github.com/gin-generator/logger\<close>), not of gorm, not
  of zapgorm2 and not a test file; the underlying logger with its caller skip moved
  forward by that index, and the underlying logger itself when there is no such frame.
\<close>

definition claimed_excluded :: "string \<Rightarrow> bool" where
  "claimed_excluded f =
     (Contains f ''github.com/gin-generator/logger'' \<or> Contains f ''gorm.io/gorm''
      \<or> Contains f ''moul.io/zapgorm2'' \<or> HasSuffix f ''_test.go'')"

definition claimed_logger :: "zap_Logger \<Rightarrow> Frame list \<Rightarrow> zap_Logger" where
  "claimed_logger zl stack =
     (case find (\<lambda>i. i < length stack \<and> \<not> claimed_excluded (frame_file (stack ! i))) [2..<15] of
        None \<Rightarrow> zl
      | Some i \<Rightarrow> zl\<lparr>callerSkip := callerSkip zl + int i\<rparr>)"

subsection \<open>Example values\<close>

text \<open>
  A level parser that knows the four level names of the package, a logger as \<open>NewLogger()\<close>
  builds it on 31 October 2026, and a marshaller that fails on \<open>None\<close> and writes a number
  in decimal. The theorems hold for every parser and marshaller; these values serve to
  evaluate them.
\<close>

definition four_levels :: "string \<Rightarrow> Level option" where
  "four_levels s =
     (if s = DEBUG then Some DebugLevel
      else if s = INFO then Some InfoLevel
      else if s = WARN then Some WarnLevel
      else if s = ERROR then Some ErrorLevel
      else None)"

definition example_zap :: zap_Logger where
  "example_zap =
     \<lparr> core_writer = [Stdout, Rotating \<lparr> Filename = ''logs/logs-2026-10-31.log'', MaxSize = 100,
                MaxBackups = 7, MaxAge = 30, Compress = False, LocalTime = True \<rparr>],
       core_level = InfoLevel, addCaller = True, callerSkip = 1, addStack = Some ErrorLevel \<rparr>"

definition example_Logger :: Logger where
  "example_Logger = newDefaultLogger \<lparr> once := True, Log := Some example_zap \<rparr>"

definition example_Marshal :: "nat option \<Rightarrow> string \<times> string option" where
  "example_Marshal v =
     (case v of
        None \<Rightarrow> ([], Some ''json: unsupported type: chan int'')
      | Some n \<Rightarrow> (digits n, None))"

text \<open>
  An adapter on that logger, and three call stacks of \<open>Trace\<close>: a query issued by an
  application through gorm; the same with a file of this package above gorm's frame; and
  a test that reaches \<open>Trace\<close> through two wrapping functions of its own file, under the
  test runner.
\<close>

definition example_Gorm :: GormLogger where
  "example_Gorm = NewGormLogger example_Logger [WithSlowThreshold (300 * Millisecond)]"

definition app_stack :: "Frame list" where
  "app_stack =
     [\<lparr> frame_file = ''/go/pkg/mod/github.com/gin-generator/logger@v1.0.0/gorm.go'',
        frame_line = 111 \<rparr>,
      \<lparr> frame_file = ''/go/pkg/mod/github.com/gin-generator/logger@v1.0.0/gorm.go'',
        frame_line = 98 \<rparr>,
      \<lparr> frame_file = ''/go/pkg/mod/gorm.io/gorm@v1.25.12/callbacks.go'', frame_line = 134 \<rparr>,
      \<lparr> frame_file = ''/go/pkg/mod/gorm.io/gorm@v1.25.12/finisher_api.go'', frame_line = 783 \<rparr>,
      \<lparr> frame_file = ''/app/service/user.go'', frame_line = 42 \<rparr>,
      \<lparr> frame_file = ''/app/main.go'', frame_line = 17 \<rparr>]"

definition pkg_stack :: "Frame list" where
  "pkg_stack =
     [\<lparr> frame_file = ''/go/pkg/mod/github.com/gin-generator/logger@v1.0.0/gorm.go'',
        frame_line = 111 \<rparr>,
      \<lparr> frame_file = ''/go/pkg/mod/github.com/gin-generator/logger@v1.0.0/gorm.go'',
        frame_line = 98 \<rparr>,
      \<lparr> frame_file = ''/go/pkg/mod/gorm.io/gorm@v1.25.12/callbacks.go'', frame_line = 134 \<rparr>,
      \<lparr> frame_file = ''/go/pkg/mod/github.com/gin-generator/logger@v1.0.0/logger.go'',
        frame_line = 150 \<rparr>,
      \<lparr> frame_file = ''/app/main.go'', frame_line = 17 \<rparr>]"

definition test_stack :: "Frame list" where
  "test_stack =
     [\<lparr> frame_file = ''/src/logger/gorm.go'', frame_line = 111 \<rparr>,
      \<lparr> frame_file = ''/src/logger/gorm.go'', frame_line = 98 \<rparr>,
      \<lparr> frame_file = ''/src/logger/gorm_test.go'', frame_line = 12 \<rparr>,
      \<lparr> frame_file = ''/src/logger/gorm_test.go'', frame_line = 16 \<rparr>,
      \<lparr> frame_file = ''/src/logger/gorm_test.go'', frame_line = 23 \<rparr>,
      \<lparr> frame_file = ''/usr/local/go/src/testing/testing.go'', frame_line = 1690 \<rparr>,
      \<lparr> frame_file = ''/usr/local/go/src/runtime/asm_amd64.s'', frame_line = 1700 \<rparr>]"

section \<open>Properties\<close>

subsection \<open>The path of the rotating file\<close>

lemma ReplaceAll_absent:
  "\<not> Contains s old \<Longrightarrow> ReplaceAll s old new = s"
  by (induction s) auto

lemma digits_lt10: "n < 10 \<Longrightarrow> digits n = [digit_char n]"
  by (simp add: digits.simps)

lemma digits_ge10: "10 \<le> n \<Longrightarrow> digits n = digits (n div 10) @ [digit_char (n mod 10)]"
  by (subst digits.simps) simp

lemma digits_2:
  "10 \<le> n \<Longrightarrow> n < 100 \<Longrightarrow> digits n = [digit_char (n div 10), digit_char (n mod 10)]"
  by (simp add: digits_ge10 digits_lt10)

lemma digits_3:
  "100 \<le> n \<Longrightarrow> n < 1000 \<Longrightarrow>
   digits n = [digit_char (n div 100), digit_char (n div 10 mod 10), digit_char (n mod 10)]"
  by (simp add: digits_ge10 [of n] digits_2 [of "n div 10"] div_mult2_eq [symmetric])

lemma digits_4:
  "1000 \<le> n \<Longrightarrow> n < 10000 \<Longrightarrow>
   digits n = [digit_char (n div 1000), digit_char (n div 100 mod 10),
               digit_char (n div 10 mod 10), digit_char (n mod 10)]"
  by (simp add: digits_ge10 [of n] digits_3 [of "n div 10"] div_mult2_eq [symmetric])

lemma digit_char_0: "digit_char 0 = CHR ''0''"
  by (simp add: digit_char_def)

lemma appendInt_2:
  assumes "n < 100"
  shows "appendInt (int n) 2 = [digit_char (n div 10), digit_char (n mod 10)]"
proof (cases "n < 10")
  case True
  then show ?thesis by (simp add: appendInt_def digits_lt10 digit_char_0)
next
  case False
  with assms show ?thesis by (simp add: appendInt_def digits_2)
qed

lemma appendInt_4:
  assumes "n < 10000"
  shows "appendInt (int n) 4 =
    [digit_char (n div 1000), digit_char (n div 100 mod 10),
     digit_char (n div 10 mod 10), digit_char (n mod 10)]"
proof -
  consider "n < 10" | "10 \<le> n" "n < 100" | "100 \<le> n" "n < 1000" | "1000 \<le> n"
    by linarith
  then show ?thesis
  proof cases
    case 1
    then show ?thesis by (simp add: appendInt_def digits_lt10 digit_char_0 numeral_3_eq_3)
  next
    case 2
    then show ?thesis by (simp add: appendInt_def digits_2 digit_char_0 numeral_2_eq_2)
  next
    case 3
    then show ?thesis by (simp add: appendInt_def digits_3 digit_char_0)
  next
    case 4
    with assms show ?thesis by (simp add: appendInt_def digits_4)
  qed
qed

text \<open>
  Claim C9. With the base path \<open>logs/logs.log\<close> and the date \<open>D\<close> (a year of at most four
  digits, a month and a day of the calendar), the rotating file of the writer is
  \<open>logs/logs-YYYY-MM-DD.log\<close>: the four decimal digits of the year, the two of the month
  and the two of the day of \<open>D\<close>.
\<close>

theorem getWriter_dated_path:
  assumes "fileName l = ''logs/logs.log''"
    and "0 \<le> year D" and "year D \<le> 9999"
    and "1 \<le> month D" and "month D \<le> 12"
    and "1 \<le> day D" and "day D \<le> 31"
  shows "rotating_path (getWriter D l) =
    Some (''logs/logs-''
      @ [digit_char (nat (year D) div 1000), digit_char (nat (year D) div 100 mod 10),
         digit_char (nat (year D) div 10 mod 10), digit_char (nat (year D) mod 10)]
      @ ''-'' @ [digit_char (month D div 10), digit_char (month D mod 10)]
      @ ''-'' @ [digit_char (day D div 10), digit_char (day D mod 10)]
      @ ''.log'')"
proof -
  have y: "appendInt (year D) 4 =
      [digit_char (nat (year D) div 1000), digit_char (nat (year D) div 100 mod 10),
       digit_char (nat (year D) div 10 mod 10), digit_char (nat (year D) mod 10)]"
    using appendInt_4 [of "nat (year D)"] assms(2,3) by simp
  have m: "appendInt (int (month D)) 2 = [digit_char (month D div 10), digit_char (month D mod 10)]"
    using appendInt_2 [of "month D"] assms(5) by simp
  have d: "appendInt (int (day D)) 2 = [digit_char (day D div 10), digit_char (day D mod 10)]"
    using appendInt_2 [of "day D"] assms(7) by simp
  have r: "ReplaceAll ''logs/logs.log'' ''logs.log'' new = ''logs/'' @ new" for new
    by simp
  show ?thesis
    by (simp only: getWriter_def Let_def assms(1) r Format_logName_def y m d)
       simp
qed

theorem getWriter_dated_path_witness:
  "rotating_path (getWriter \<lparr>year = 2026, month = 10, day = 31\<rparr> newDefaultLogger)
     = Some ''logs/logs-2026-10-31.log''"
  using getWriter_dated_path [of newDefaultLogger "\<lparr>year = 2026, month = 10, day = 31\<rparr>"]
  by (simp add: newDefaultLogger_def digit_char_def)

text \<open>
  Claim C10. A configured path that does not contain \<open>logs.log\<close> is the path of the
  rotating file as it is, whatever the date.
\<close>

theorem getWriter_other_path:
  "\<not> Contains (fileName l) ''logs.log'' \<Longrightarrow> rotating_path (getWriter D l) = Some (fileName l)"
  by (simp add: getWriter_def ReplaceAll_absent)

theorem getWriter_other_path_witness:
  "\<not> Contains ''logs/sql.log'' ''logs.log'' \<and>
   rotating_path (getWriter \<lparr>year = 2026, month = 10, day = 31\<rparr>
      (apply_Option (WithFileName ''logs/sql.log'') newDefaultLogger)) = Some ''logs/sql.log''"
  using getWriter_other_path [of "apply_Option (WithFileName ''logs/sql.log'') newDefaultLogger"
      "\<lparr>year = 2026, month = 10, day = 31\<rparr>"]
  by (simp add: newDefaultLogger_def)

subsection \<open>Configuration\<close>

lemma apply_opts_append: "apply_opts (xs @ ys) l = apply_opts ys (apply_opts xs l)"
  by (induction xs arbitrary: l) auto

lemma apply_Option_absorb:
  "option_field a = option_field b \<Longrightarrow> apply_Option b (apply_Option a l) = apply_Option b l"
  by (cases a; cases b) auto

lemma apply_Option_commute:
  "option_field a \<noteq> option_field b \<Longrightarrow>
   apply_Option b (apply_Option a l) = apply_Option a (apply_Option b l)"
  by (cases a; cases b) auto

lemma apply_Option_cong:
  assumes "apply_Option b x = apply_Option b y"
  shows "apply_Option b (apply_Option c x) = apply_Option b (apply_Option c y)"
proof (cases "option_field c = option_field b")
  case True
  then show ?thesis using assms by (simp add: apply_Option_absorb)
next
  case False
  have "apply_Option b (apply_Option c x) = apply_Option c (apply_Option b x)"
    using False by (rule apply_Option_commute)
  also have "\<dots> = apply_Option c (apply_Option b y)"
    using assms by simp
  also have "\<dots> = apply_Option b (apply_Option c y)"
    using False by (rule apply_Option_commute [symmetric])
  finally show ?thesis .
qed

lemma apply_opts_snoc: "apply_opts (ys @ [c]) l = apply_Option c (apply_opts ys l)"
  by (simp add: apply_opts_append)

lemma apply_opts_override_step:
  assumes "option_field a = option_field b"
  shows "apply_Option b (apply_opts ys (apply_Option a l)) = apply_Option b (apply_opts ys l)"
proof (induction ys rule: rev_induct)
  case Nil
  show ?case using assms by (simp add: apply_Option_absorb)
next
  case (snoc c ys)
  show ?case
    unfolding apply_opts_snoc by (rule apply_Option_cong) (rule snoc.IH)
qed

lemma apply_opts_override:
  assumes "option_field a = option_field b"
  shows "apply_opts (xs @ a # ys @ b # zs) l = apply_opts (xs @ ys @ b # zs) l"
  using apply_opts_override_step [OF assms, of ys "apply_opts xs l"]
  by (simp add: apply_opts_append)

lemma apply_Option_Log [simp]: "Log (apply_Option opt l) = Log l"
  by (cases opt) auto

lemma apply_Option_once [simp]: "once (apply_Option opt l) = once l"
  by (cases opt) auto

lemma apply_opts_Log [simp]: "Log (apply_opts opts l) = Log l"
  by (induction opts arbitrary: l) auto

lemma apply_opts_once [simp]: "once (apply_opts opts l) = once l"
  by (induction opts arbitrary: l) auto

lemma example_Logger_built:
  "fst (NewLogger four_levels \<lparr>year = 2026, month = 10, day = 31\<rparr> [] empty_world)
     = example_Logger"
  by (simp add: NewLogger_def custom_def four_levels_def INFO_def DEBUG_def
        newDefaultLogger_def empty_world_def getWriter_def Format_logName_def
        appendInt_4 [of 2026, simplified] appendInt_2 [of 10, simplified]
        appendInt_2 [of 31, simplified] digit_char_def Let_def
        example_Logger_def example_zap_def zap_New_def WithOptions_def)

lemma apply_opts_fileName:
  "fileName (apply_opts opts l) = last (fileName l # [v. WithFileName v \<leftarrow> opts])"
proof (induction opts arbitrary: l)
  case Nil
  show ?case by simp
next
  case (Cons opt opts)
  show ?case by (cases opt) (simp_all add: Cons.IH)
qed

lemma apply_opts_maxSize:
  "maxSize (apply_opts opts l) = last (maxSize l # [v. WithMaxSize v \<leftarrow> opts])"
proof (induction opts arbitrary: l)
  case Nil
  show ?case by simp
next
  case (Cons opt opts)
  show ?case by (cases opt) (simp_all add: Cons.IH)
qed

lemma apply_opts_maxBackup:
  "maxBackup (apply_opts opts l) = last (maxBackup l # [v. WithMaxBackup v \<leftarrow> opts])"
proof (induction opts arbitrary: l)
  case Nil
  show ?case by simp
next
  case (Cons opt opts)
  show ?case by (cases opt) (simp_all add: Cons.IH)
qed

lemma apply_opts_maxAge:
  "maxAge (apply_opts opts l) = last (maxAge l # [v. WithMaxAge v \<leftarrow> opts])"
proof (induction opts arbitrary: l)
  case Nil
  show ?case by simp
next
  case (Cons opt opts)
  show ?case by (cases opt) (simp_all add: Cons.IH)
qed

lemma apply_opts_compress:
  "compress (apply_opts opts l) = last (compress l # [v. WithCompress v \<leftarrow> opts])"
proof (induction opts arbitrary: l)
  case Nil
  show ?case by simp
next
  case (Cons opt opts)
  show ?case by (cases opt) (simp_all add: Cons.IH)
qed

lemma apply_opts_level:
  "level (apply_opts opts l) = last (level l # [v. WithLevel v \<leftarrow> opts])"
proof (induction opts arbitrary: l)
  case Nil
  show ?case by simp
next
  case (Cons opt opts)
  show ?case by (cases opt) (simp_all add: Cons.IH)
qed

lemma apply_opts_localTime: "localTime (apply_opts opts l) = localTime l"
proof (induction opts arbitrary: l)
  case Nil
  show ?case by simp
next
  case (Cons opt opts)
  show ?case by (cases opt) (simp_all add: Cons.IH)
qed

lemma custom_configuration:
  "fileName (fst (custom U now l w)) = fileName l"
  "maxSize (fst (custom U now l w)) = maxSize l"
  "maxBackup (fst (custom U now l w)) = maxBackup l"
  "maxAge (fst (custom U now l w)) = maxAge l"
  "compress (fst (custom U now l w)) = compress l"
  "level (fst (custom U now l w)) = level l"
  "localTime (fst (custom U now l w)) = localTime l"
  by (simp_all add: custom_def Let_def split: option.split)

text \<open>
  Claim C4, as the code has it. With no option the configuration is the default one: path
  \<open>logs/logs.log\<close>, 100 MB, 7 backups, 30 days, no compression, level \<open>info\<close>, and the
  local-time flag on (the claim says off). For any option list, each field of the logger
  has the value of the last option of the list on that field, and its default when the
  list has none; the local-time flag, which no option writes, stays on. So an option is
  overridden by a later option on the same field: the list gives the same logger, and
  the same world, as the list without the earlier option.
\<close>

theorem NewLogger_configuration:
  "fileName (fst (NewLogger U now [] w)) = ''logs/logs.log''
   \<and> maxSize (fst (NewLogger U now [] w)) = 100
   \<and> maxBackup (fst (NewLogger U now [] w)) = 7
   \<and> maxAge (fst (NewLogger U now [] w)) = 30
   \<and> compress (fst (NewLogger U now [] w)) = False
   \<and> localTime (fst (NewLogger U now [] w)) = True
   \<and> level (fst (NewLogger U now [] w)) = ''info''
   \<and> fileName (fst (NewLogger U now opts w)) = last (''logs/logs.log'' # [v. WithFileName v \<leftarrow> opts])
   \<and> maxSize (fst (NewLogger U now opts w)) = last (100 # [v. WithMaxSize v \<leftarrow> opts])
   \<and> maxBackup (fst (NewLogger U now opts w)) = last (7 # [v. WithMaxBackup v \<leftarrow> opts])
   \<and> maxAge (fst (NewLogger U now opts w)) = last (30 # [v. WithMaxAge v \<leftarrow> opts])
   \<and> compress (fst (NewLogger U now opts w)) = last (False # [v. WithCompress v \<leftarrow> opts])
   \<and> level (fst (NewLogger U now opts w)) = last (''info'' # [v. WithLevel v \<leftarrow> opts])
   \<and> localTime (fst (NewLogger U now opts w)) = True
   \<and> (option_field a = option_field b \<longrightarrow>
        NewLogger U now (xs @ a # ys @ b # zs) w = NewLogger U now (xs @ ys @ b # zs) w)"
proof -
  have ov: "NewLogger U now (xs @ a # ys @ b # zs) w = NewLogger U now (xs @ ys @ b # zs) w"
    if "option_field a = option_field b"
    using apply_opts_override [OF that] by (simp add: NewLogger_def)
  have d: "fileName newDefaultLogger = ''logs/logs.log''" "maxSize newDefaultLogger = 100"
    "maxBackup newDefaultLogger = 7" "maxAge newDefaultLogger = 30"
    "compress newDefaultLogger = False" "level newDefaultLogger = ''info''"
    "localTime newDefaultLogger = True"
    by (simp_all add: newDefaultLogger_def INFO_def)
  have g: "fileName (fst (NewLogger U now os w)) = last (''logs/logs.log'' # [v. WithFileName v \<leftarrow> os])"
    "maxSize (fst (NewLogger U now os w)) = last (100 # [v. WithMaxSize v \<leftarrow> os])"
    "maxBackup (fst (NewLogger U now os w)) = last (7 # [v. WithMaxBackup v \<leftarrow> os])"
    "maxAge (fst (NewLogger U now os w)) = last (30 # [v. WithMaxAge v \<leftarrow> os])"
    "compress (fst (NewLogger U now os w)) = last (False # [v. WithCompress v \<leftarrow> os])"
    "level (fst (NewLogger U now os w)) = last (''info'' # [v. WithLevel v \<leftarrow> os])"
    "localTime (fst (NewLogger U now os w)) = True" for os
    unfolding NewLogger_def Let_def custom_configuration
      apply_opts_fileName apply_opts_maxSize apply_opts_maxBackup apply_opts_maxAge
      apply_opts_compress apply_opts_level apply_opts_localTime d
    by (rule refl)+
  have e: "fileName (fst (NewLogger U now [] w)) = ''logs/logs.log''"
    "maxSize (fst (NewLogger U now [] w)) = 100"
    "maxBackup (fst (NewLogger U now [] w)) = 7"
    "maxAge (fst (NewLogger U now [] w)) = 30"
    "compress (fst (NewLogger U now [] w)) = False"
    "level (fst (NewLogger U now [] w)) = ''info''"
    "localTime (fst (NewLogger U now [] w)) = True"
    using g [of "[]"] by simp_all
  show ?thesis
    using ov e g [of opts] by blast
qed

theorem NewLogger_configuration_witness:
  "option_field (WithMaxSize 50) = option_field (WithMaxSize 20)
   \<and> NewLogger four_levels \<lparr>year = 2026, month = 10, day = 31\<rparr>
        [WithMaxSize 50, WithLevel ''warn'', WithMaxSize 20] empty_world
     = NewLogger four_levels \<lparr>year = 2026, month = 10, day = 31\<rparr>
        [WithLevel ''warn'', WithMaxSize 20] empty_world
   \<and> maxSize (fst (NewLogger four_levels \<lparr>year = 2026, month = 10, day = 31\<rparr>
        [WithMaxSize 50, WithLevel ''warn'', WithMaxSize 20] empty_world)) = 20
   \<and> level (fst (NewLogger four_levels \<lparr>year = 2026, month = 10, day = 31\<rparr>
        [WithMaxSize 50, WithLevel ''warn'', WithMaxSize 20] empty_world)) = ''warn''
   \<and> fileName (fst (NewLogger four_levels \<lparr>year = 2026, month = 10, day = 31\<rparr>
        [WithMaxSize 50, WithLevel ''warn'', WithMaxSize 20] empty_world)) = ''logs/logs.log''
   \<and> localTime (fst (NewLogger four_levels \<lparr>year = 2026, month = 10, day = 31\<rparr>
        [WithMaxSize 50, WithLevel ''warn'', WithMaxSize 20] empty_world)) = True"
proof -
  let ?D = "\<lparr>year = 2026, month = 10, day = 31\<rparr>"
  let ?long = "[WithMaxSize 50, WithLevel ''warn'', WithMaxSize 20]"
  note h = NewLogger_configuration [of four_levels ?D empty_world ?long
      "WithMaxSize 50" "WithMaxSize 20" "[]" "[WithLevel ''warn'']" "[]"]
  have a: "maxSize (fst (NewLogger four_levels ?D ?long empty_world))
      = last (100 # [v. WithMaxSize v \<leftarrow> ?long])"
    using h by blast
  have b: "level (fst (NewLogger four_levels ?D ?long empty_world))
      = last (''info'' # [v. WithLevel v \<leftarrow> ?long])"
    using h by blast
  have c: "fileName (fst (NewLogger four_levels ?D ?long empty_world))
      = last (''logs/logs.log'' # [v. WithFileName v \<leftarrow> ?long])"
    using h by blast
  have d: "localTime (fst (NewLogger four_levels ?D ?long empty_world)) = True"
    using h by blast
  have e: "NewLogger four_levels ?D ?long empty_world
      = NewLogger four_levels ?D [WithLevel ''warn'', WithMaxSize 20] empty_world"
    using h by simp
  have a': "maxSize (fst (NewLogger four_levels ?D ?long empty_world)) = 20"
    using a by simp
  have b': "level (fst (NewLogger four_levels ?D ?long empty_world)) = ''warn''"
    using b by simp
  have c': "fileName (fst (NewLogger four_levels ?D ?long empty_world)) = ''logs/logs.log''"
    using c by simp
  show ?thesis
    using a' b' c' d e by (intro conjI) simp_all
qed

text \<open>The default of the local-time flag is on: the logger of \<open>NewLogger()\<close> does not
  have it off, and neither does the rotating file it writes to.\<close>

theorem NewLogger_default_localTime_counterexample:
  "localTime (fst (NewLogger four_levels \<lparr>year = 2026, month = 10, day = 31\<rparr> [] empty_world))
     \<noteq> False
   \<and> map_option core_writer
        (Log (fst (NewLogger four_levels \<lparr>year = 2026, month = 10, day = 31\<rparr> [] empty_world)))
     = Some [Stdout, Rotating \<lparr> Filename = ''logs/logs-2026-10-31.log'', MaxSize = 100,
                MaxBackups = 7, MaxAge = 30, Compress = False, LocalTime = True \<rparr>]"
  by (simp add: example_Logger_built example_Logger_def example_zap_def newDefaultLogger_def)

subsection \<open>Initialisation\<close>

text \<open>
  Claim C5. When the level string does not parse, \<open>custom\<close> prints the diagnostic line
  and returns the logger as it was, without building; so a logger constructed by
  \<open>NewLogger\<close> with such a level has a nil \<open>Log\<close> and an unused \<open>Once\<close>, nothing was
  built, and the one line is on the console. \<open>custom\<close> has no other outcome: it returns.
\<close>

theorem custom_invalid_level:
  "(U (level l) = None \<longrightarrow>
      custom U now l w =
        (l, w\<lparr>console := console w @
               [''Logger init error: invalid log level. Please check the level setting.'']\<rparr>))
   \<and> (U (level (apply_opts opts newDefaultLogger)) = None \<longrightarrow>
        Log (fst (NewLogger U now opts w)) = None
        \<and> \<not> once (fst (NewLogger U now opts w))
        \<and> built (snd (NewLogger U now opts w)) = built w
        \<and> console (snd (NewLogger U now opts w)) = console w @
             [''Logger init error: invalid log level. Please check the level setting.''])"
  by (simp add: custom_def NewLogger_def newDefaultLogger_def)

theorem custom_invalid_level_witness:
  "four_levels (level (apply_opts [WithLevel ''verbose''] newDefaultLogger)) = None
   \<and> Log (fst (NewLogger four_levels \<lparr>year = 2026, month = 10, day = 31\<rparr>
               [WithLevel ''verbose''] empty_world)) = None
   \<and> snd (NewLogger four_levels \<lparr>year = 2026, month = 10, day = 31\<rparr>
               [WithLevel ''verbose''] empty_world) =
       \<lparr> console = [''Logger init error: invalid log level. Please check the level setting.''],
         built = [] \<rparr>"
  using custom_invalid_level [of four_levels "apply_opts [WithLevel ''verbose''] newDefaultLogger"
      "\<lparr>year = 2026, month = 10, day = 31\<rparr>" empty_world "[WithLevel ''verbose'']"]
  by (simp add: four_levels_def INFO_def DEBUG_def WARN_def ERROR_def NewLogger_def
      empty_world_def newDefaultLogger_def)

lemma custom_built_once: "built_once (l, w) \<Longrightarrow> built_once (custom U now l w)"
  by (auto simp: built_once_def custom_def Let_def split: option.splits)

lemma custom_keeps_Log:
  "built_once (l, w) \<Longrightarrow> Log l = Some z \<Longrightarrow> Log (fst (custom U now l w)) = Some z"
  by (auto simp: built_once_def custom_def Let_def split: option.splits)

lemma Configure_built_once: "built_once (l, w) \<Longrightarrow> built_once (apply_Option opt l, w)"
  by (auto simp: built_once_def split: option.splits)

lemma run_steps_built_once: "built_once lw \<Longrightarrow> built_once (run_steps U ss lw)"
proof (induction U ss lw rule: run_steps.induct)
  case (1 U lw)
  then show ?case by simp
next
  case (2 U opt ss l w)
  then show ?case by (simp add: Configure_built_once)
next
  case (3 U now ss l w)
  then show ?case by (simp add: custom_built_once)
qed

lemma run_steps_keeps_Log:
  "built_once lw \<Longrightarrow> Log (fst lw) = Some z \<Longrightarrow> Log (fst (run_steps U ss lw)) = Some z"
proof (induction U ss lw rule: run_steps.induct)
  case (1 U lw)
  then show ?case by simp
next
  case (2 U opt ss l w)
  then show ?case by (simp add: Configure_built_once)
next
  case (3 U now ss l w)
  then show ?case using custom_built_once [of l w U now] custom_keeps_Log [of l w z U now]
    by simp
qed

lemma run_steps_append: "run_steps U (ss @ ts) lw = run_steps U ts (run_steps U ss lw)"
  by (induction U ss lw rule: run_steps.induct) auto

lemma built_once_init: "built_once (newDefaultLogger, empty_world)"
  by (simp add: built_once_def newDefaultLogger_def empty_world_def)

text \<open>
  Claim C6. On a logger made by \<open>newDefaultLogger\<close>, after any sequence of option
  applications and calls of \<open>custom\<close> (at any dates), \<open>zap.New\<close> has run at most once;
  once \<open>Log\<close> is built it is the same after any further steps, and it is the only logger
  ever built. A call of \<open>custom\<close> right after another one leaves the \<open>Logger\<close> as the
  first call left it.
\<close>

theorem custom_builds_once:
  "length (built (snd (run_steps U ss (newDefaultLogger, empty_world)))) \<le> 1
   \<and> (Log (fst (run_steps U ss (newDefaultLogger, empty_world))) = Some z \<longrightarrow>
        Log (fst (run_steps U (ss @ ts) (newDefaultLogger, empty_world))) = Some z
        \<and> built (snd (run_steps U (ss @ ts) (newDefaultLogger, empty_world))) = [z])
   \<and> fst (custom U now2 (fst (custom U now1 l w)) w2) = fst (custom U now1 l w)"
proof -
  let ?s = "run_steps U ss (newDefaultLogger, empty_world)"
  have inv: "built_once ?s"
    by (rule run_steps_built_once) (rule built_once_init)
  have a: "length (built (snd ?s)) \<le> 1"
    using inv by (simp add: built_once_def split: option.splits)
  have b: "Log (fst (run_steps U ts ?s)) = Some z \<and> built (snd (run_steps U ts ?s)) = [z]"
    if "Log (fst ?s) = Some z"
  proof -
    have l: "Log (fst (run_steps U ts ?s)) = Some z"
      using inv that by (rule run_steps_keeps_Log)
    have "built_once (run_steps U ts ?s)"
      using inv by (rule run_steps_built_once)
    with l show ?thesis by (simp add: built_once_def)
  qed
  have c: "fst (custom U now2 (fst (custom U now1 l w)) w2) = fst (custom U now1 l w)"
    by (simp add: custom_def Let_def split: option.splits)
  show ?thesis using a b c by (simp add: run_steps_append)
qed

theorem custom_builds_once_witness:
  "Log (fst (run_steps four_levels
        [Configure (WithLevel ''loud''), Init \<lparr>year = 2026, month = 10, day = 30\<rparr>,
         Configure (WithLevel ''debug''), Init \<lparr>year = 2026, month = 10, day = 30\<rparr>]
        (newDefaultLogger, empty_world)))
     = Some (zap_New [Stdout, Rotating \<lparr> Filename = ''logs/logs-2026-10-30.log'', MaxSize = 100,
                MaxBackups = 7, MaxAge = 30, Compress = False, LocalTime = True \<rparr>] DebugLevel
              [AddCaller, AddCallerSkip 1, AddStacktrace ErrorLevel])
   \<and> built (snd (run_steps four_levels
        ([Configure (WithLevel ''loud''), Init \<lparr>year = 2026, month = 10, day = 30\<rparr>,
          Configure (WithLevel ''debug''), Init \<lparr>year = 2026, month = 10, day = 30\<rparr>]
         @ [Configure (WithLevel ''error''), Init \<lparr>year = 2026, month = 10, day = 31\<rparr>])
        (newDefaultLogger, empty_world)))
     = [zap_New [Stdout, Rotating \<lparr> Filename = ''logs/logs-2026-10-30.log'', MaxSize = 100,
                MaxBackups = 7, MaxAge = 30, Compress = False, LocalTime = True \<rparr>] DebugLevel
              [AddCaller, AddCallerSkip 1, AddStacktrace ErrorLevel]]"
proof -
  let ?ss = "[Configure (WithLevel ''loud''), Init \<lparr>year = 2026, month = 10, day = 30\<rparr>,
         Configure (WithLevel ''debug''), Init \<lparr>year = 2026, month = 10, day = 30\<rparr>]"
  let ?z = "zap_New [Stdout, Rotating \<lparr> Filename = ''logs/logs-2026-10-30.log'', MaxSize = 100,
                MaxBackups = 7, MaxAge = 30, Compress = False, LocalTime = True \<rparr>] DebugLevel
              [AddCaller, AddCallerSkip 1, AddStacktrace ErrorLevel]"
  have h: "Log (fst (run_steps four_levels ?ss (newDefaultLogger, empty_world))) = Some ?z"
    by (simp add: custom_def four_levels_def INFO_def DEBUG_def WARN_def ERROR_def
        newDefaultLogger_def empty_world_def getWriter_def Format_logName_def
        appendInt_4 [of 2026, simplified] appendInt_2 [of 10, simplified]
        appendInt_2 [of 30, simplified] digit_char_def Let_def)
  show ?thesis
    using h custom_builds_once [of four_levels ?ss ?z
        "[Configure (WithLevel ''error''), Init \<lparr>year = 2026, month = 10, day = 31\<rparr>]"]
    by simp
qed

subsection \<open>Marshalling and Dump\<close>

text \<open>
  Claim C7. \<open>json.Marshal\<close> fails by returning nil bytes and an error. On such a value
  \<open>jsonString\<close> of a built logger hands over exactly one entry, at error level, with the
  text of the error, and returns the empty string; it returns normally. On a value that
  marshals it returns the bytes and hands over nothing.
\<close>

theorem jsonString_marshal:
  "(Marshal v = ([], Some e) \<and> Log l = Some z \<longrightarrow>
      jsonString Marshal l v out =
        Inr ([], out @ [\<lparr> entry_level = ErrorLevel, entry_message = ''Logger'',
                           entry_fields = [zap_String ''JSON marshal error'' e],
                           entry_skip = (if addCaller z then Some (callerSkip z) else None) \<rparr>]))
   \<and> (Marshal v = (b, None) \<longrightarrow> jsonString Marshal l v out = Inr (b, out))"
  by (simp add: jsonString_def zap_log_def zap_entry_def)

theorem jsonString_marshal_witness:
  "example_Marshal None = ([], Some ''json: unsupported type: chan int'')
   \<and> Log example_Logger = Some example_zap
   \<and> jsonString example_Marshal example_Logger None [] =
        Inr ([], [\<lparr> entry_level = ErrorLevel, entry_message = ''Logger'',
                     entry_fields = [zap_String ''JSON marshal error''
                                       ''json: unsupported type: chan int''],
                     entry_skip = Some 1 \<rparr>])
   \<and> example_Marshal (Some 7) = (''7'', None)
   \<and> jsonString example_Marshal example_Logger (Some 7) [] = Inr (''7'', [])"
  using jsonString_marshal [of example_Marshal None "''json: unsupported type: chan int''"
      example_Logger example_zap "[]" "''7''"]
    jsonString_marshal [of example_Marshal "Some 7" "''json: unsupported type: chan int''"
      example_Logger example_zap "[]" "''7''"]
  by (simp add: example_Marshal_def example_Logger_def example_zap_def digits_lt10 digit_char_def)

text \<open>
  Claim C8 says that every call of \<open>Dump\<close> emits exactly one record, at warn level. On a
  value that does not marshal, \<open>Dump\<close> on the logger of \<open>NewLogger()\<close> emits two: the
  error-level record of \<open>jsonString\<close>, then its own.
\<close>

theorem Dump_two_records_counterexample:
  "Dump example_Marshal example_Logger None [] [] =
     Inr [\<lparr> entry_level = ErrorLevel, entry_message = ''Logger'',
             entry_fields = [zap_String ''JSON marshal error''
                               ''json: unsupported type: chan int''],
             entry_skip = Some 1 \<rparr>,
          \<lparr> entry_level = WarnLevel, entry_message = ''Dump'',
             entry_fields = [zap_String ''data'' []],
             entry_skip = Some 1 \<rparr>]"
  by (simp add: Dump_def jsonString_def zap_log_def zap_entry_def example_Marshal_def
      example_Logger_def example_zap_def)

text \<open>
  Claim C8, as the code has it. On a built logger \<open>Dump\<close> returns normally and its last
  record is the only one tagged \<open>Dump\<close>: at warn level, with one field whose key is
  \<open>data\<close> without a label and the first label otherwise, and whose value is the marshalled
  text. It is the only record when the value marshals; when it does not, the error-level
  record of \<open>jsonString\<close> comes before it.
\<close>

theorem Dump_records:
  assumes "Log l = Some z"
  shows "Dump Marshal l v msgs out =
     Inr (out
       @ (case snd (Marshal v) of
            None \<Rightarrow> []
          | Some e \<Rightarrow> [\<lparr> entry_level = ErrorLevel, entry_message = ''Logger'',
                          entry_fields = [zap_String ''JSON marshal error'' e],
                          entry_skip = (if addCaller z then Some (callerSkip z) else None) \<rparr>])
       @ [\<lparr> entry_level = WarnLevel, entry_message = ''Dump'',
             entry_fields = [zap_String (case msgs of [] \<Rightarrow> ''data'' | m # _ \<Rightarrow> m)
                                        (fst (Marshal v))],
             entry_skip = (if addCaller z then Some (callerSkip z) else None) \<rparr>])"
  using assms
  by (cases "Marshal v"; cases msgs)
     (simp_all add: Dump_def jsonString_def zap_log_def zap_entry_def split: option.splits)

theorem Dump_records_witness:
  "Log example_Logger = Some example_zap
   \<and> Dump example_Marshal example_Logger (Some 7) [''seven'', ''ignored''] [] =
       Inr [\<lparr> entry_level = WarnLevel, entry_message = ''Dump'',
               entry_fields = [zap_String ''seven'' ''7''],
               entry_skip = Some 1 \<rparr>]"
  using Dump_records [of example_Logger example_zap example_Marshal "Some 7"
      "[''seven'', ''ignored'']" "[]"]
  by (simp add: example_Marshal_def example_Logger_def example_zap_def digits_lt10 digit_char_def)

subsection \<open>The database adapter\<close>

lemma loop_end: "15 \<le> i \<Longrightarrow> logger_loop zl clone stack i = zl"
  by (subst logger_loop.simps) simp

lemma skipped_file_iff:
  "skipped_file f \<longleftrightarrow>
     HasSuffix f ''_test.go'' \<or> Contains f gormPackage \<or> Contains f zapGormPackage"
  by (simp add: skipped_file_def gormPackage_def zapGormPackage_def filepath_Join_def)

lemma loop_skip:
  assumes "i < 15" and "i < length stack \<longrightarrow> skipped_file (frame_file (stack ! i))"
  shows "logger_loop zl clone stack i = logger_loop zl clone stack (Suc i)"
  using assms
  by (subst logger_loop.simps) (auto simp: runtime_Caller_def skipped_file_iff)

lemma loop_hit:
  assumes "i < 15" and "i < length stack" and "\<not> skipped_file (frame_file (stack ! i))"
  shows "logger_loop zl clone stack i = clone\<lparr>callerSkip := callerSkip clone + int i\<rparr>"
  using assms
  by (subst logger_loop.simps) (auto simp: runtime_Caller_def skipped_file_iff WithOptions_def)

lemma loop_first:
  assumes "i < 15" and "i < length stack" and "\<not> skipped_file (frame_file (stack ! i))"
    and "\<forall>j. k \<le> j \<and> j < i \<longrightarrow> skipped_file (frame_file (stack ! j))"
    and "k \<le> i"
  shows "logger_loop zl clone stack k = clone\<lparr>callerSkip := callerSkip clone + int i\<rparr>"
  using assms(4,5)
proof (induction "i - k" arbitrary: k)
  case 0
  then have "k = i" by simp
  then show ?case using loop_hit [OF assms(1-3)] by simp
next
  case (Suc n)
  then have lt: "k < i" by simp
  then have "logger_loop zl clone stack k = logger_loop zl clone stack (Suc k)"
    using Suc.prems(1) assms(1) by (intro loop_skip) auto
  also have "\<dots> = clone\<lparr>callerSkip := callerSkip clone + int i\<rparr>"
    using Suc.hyps(2) Suc.prems lt by (intro Suc.hyps(1)) auto
  finally show ?case .
qed

lemma loop_none:
  assumes "\<forall>j. k \<le> j \<and> j < 15 \<and> j < length stack \<longrightarrow> skipped_file (frame_file (stack ! j))"
  shows "logger_loop zl clone stack k = zl"
  using assms
proof (induction "15 - k" arbitrary: k)
  case 0
  then show ?case by (simp add: loop_end)
next
  case (Suc n)
  then have lt: "k < 15" by simp
  then have "logger_loop zl clone stack k = logger_loop zl clone stack (Suc k)"
    using Suc.prems by (intro loop_skip) auto
  also have "\<dots> = zl"
    using Suc.hyps(2) Suc.prems by (intro Suc.hyps(1)) auto
  finally show ?case .
qed

lemma logger_found:
  assumes "ZapLogger g = Some z"
    and "2 \<le> i" and "i < 15" and "i < length stack"
    and "\<not> skipped_file (frame_file (stack ! i))"
    and "\<forall>j. 2 \<le> j \<and> j < i \<longrightarrow> skipped_file (frame_file (stack ! j))"
  shows "logger g stack = Inr (z\<lparr>callerSkip := callerSkip z - 2 + int i\<rparr>)"
  using loop_first [OF assms(3,4,5,6) assms(2), of z "WithOptions z [AddCallerSkip (- 2)]"]
    assms(1)
  by (simp add: logger_def WithOptions_def)

lemma logger_none:
  assumes "ZapLogger g = Some z"
    and "\<forall>j. 2 \<le> j \<and> j < 15 \<and> j < length stack \<longrightarrow> skipped_file (frame_file (stack ! j))"
  shows "logger g stack = Inr z"
  using loop_none [OF assms(2), of z "WithOptions z [AddCallerSkip (- 2)]"] assms(1)
  by (simp add: logger_def)

lemma logger_returns: "ZapLogger g = Some z \<Longrightarrow> \<exists>lg. logger g stack = Inr lg"
  by (simp add: logger_def)

lemma example_Gorm_ZapLogger: "ZapLogger example_Gorm = Some example_zap"
  by (simp add: example_Gorm_def NewGormLogger_def example_Logger_def)

lemma example_Gorm_SlowThreshold: "SlowThreshold example_Gorm = 300000000"
  by (simp add: example_Gorm_def NewGormLogger_def Millisecond_def)

lemma upt_2_15: "[2..<15] = [2,3,4,5,6,7,8,9,10,11,12,13,14::nat]"
  by (simp add: upt_rec_numeral)

lemma app_stack_files:
  "skipped_file (frame_file (app_stack ! 2))" "skipped_file (frame_file (app_stack ! 3))"
  "\<not> skipped_file (frame_file (app_stack ! 4))"
  by (simp_all add: app_stack_def skipped_file_def HasSuffix_def)

lemma Trace_entries:
  assumes "logger g stack = Inr lg"
  shows "Trace ms g stack d (sql, rows) err out =
     Inr (out
       @ (case err of
            None \<Rightarrow> []
          | Some e \<Rightarrow>
              if errors_Is e ErrRecordNotFound
              then [zap_entry lg WarnLevel ''Database ErrRecordNotFound''
                      [zap_String ''sql'' sql, zap_String ''time'' (ms d), zap_Int64 ''rows'' rows]]
              else [zap_entry lg ErrorLevel ''Database Error''
                      [zap_String ''sql'' sql, zap_String ''time'' (ms d), zap_Int64 ''rows'' rows,
                       zap_Error e]])
       @ (if SlowThreshold g \<noteq> 0 \<and> SlowThreshold g < d
          then [zap_entry lg WarnLevel ''Database Slow Log''
                  ([zap_String ''sql'' sql, zap_String ''time'' (ms d), zap_Int64 ''rows'' rows]
                   @ (case err of
                        None \<Rightarrow> []
                      | Some e \<Rightarrow> if errors_Is e ErrRecordNotFound then [] else [zap_Error e]))]
          else [])
       @ [zap_entry lg DebugLevel ''Database Query''
            ([zap_String ''sql'' sql, zap_String ''time'' (ms d), zap_Int64 ''rows'' rows]
             @ (case err of
                  None \<Rightarrow> []
                | Some e \<Rightarrow> if errors_Is e ErrRecordNotFound then [] else [zap_Error e]))])"
  using assms
  by (simp add: Trace_def logger_log_def zap_log_def Let_def split: option.splits)

text \<open>
  Claim C1. On an adapter with an underlying logger, whatever the call stack, \<open>Trace\<close>
  returns normally, and among the records it emits: for an error that is the
  record-not-found error (by \<open>errors.Is\<close>), exactly one is tagged
  \<open>Database ErrRecordNotFound\<close>, at warn level with the three base fields, and none is
  tagged \<open>Database Error\<close>; for any other error, exactly one is tagged \<open>Database Error\<close>,
  at error level with the base fields and the error appended, and none is tagged
  \<open>Database ErrRecordNotFound\<close>; without an error there is neither; exactly one warn-level
  record is tagged \<open>Database Slow Log\<close> when the threshold is not zero and the elapsed time
  exceeds it, and none otherwise; exactly one debug-level record is tagged
  \<open>Database Query\<close>; and there is no other record, so that without an error and without
  the slow log the debug record is the only one.
\<close>

theorem Trace_records:
  assumes "ZapLogger g = Some z"
  shows "\<exists>out. Trace ms g stack d (sql, rows) err [] = Inr out
     \<and> (\<forall>e. err = Some e \<and> errors_Is e ErrRecordNotFound \<longrightarrow>
           map level_fields (tagged ''Database ErrRecordNotFound'' out) =
             [(WarnLevel, [zap_String ''sql'' sql, zap_String ''time'' (ms d), zap_Int64 ''rows'' rows])]
           \<and> tagged ''Database Error'' out = [])
     \<and> (\<forall>e. err = Some e \<and> \<not> errors_Is e ErrRecordNotFound \<longrightarrow>
           map level_fields (tagged ''Database Error'' out) =
             [(ErrorLevel, [zap_String ''sql'' sql, zap_String ''time'' (ms d), zap_Int64 ''rows'' rows,
                            zap_Error e])]
           \<and> tagged ''Database ErrRecordNotFound'' out = [])
     \<and> (err = None \<longrightarrow>
           tagged ''Database ErrRecordNotFound'' out = [] \<and> tagged ''Database Error'' out = [])
     \<and> (SlowThreshold g \<noteq> 0 \<and> SlowThreshold g < d \<longrightarrow>
           map entry_level (tagged ''Database Slow Log'' out) = [WarnLevel])
     \<and> (\<not> (SlowThreshold g \<noteq> 0 \<and> SlowThreshold g < d) \<longrightarrow>
           tagged ''Database Slow Log'' out = [])
     \<and> map entry_level (tagged ''Database Query'' out) = [DebugLevel]
     \<and> length out = (if err = None then 0 else 1)
                     + (if SlowThreshold g \<noteq> 0 \<and> SlowThreshold g < d then 1 else 0) + 1"
proof -
  obtain lg where lg: "logger g stack = Inr lg"
    using logger_returns [OF assms] by blast
  show ?thesis
    unfolding Trace_entries [OF lg]
    by (cases err)
       (simp_all add: tagged_def level_fields_def zap_entry_def zap_Error_def)
qed

theorem Trace_records_witness:
  "ZapLogger example_Gorm = Some example_zap
   \<and> (\<exists>out. Trace (\<lambda>_. ''350.000ms'') example_Gorm app_stack 350000000 (''show tables;'', 3)
               (Some (Wrapped ''first'' ErrRecordNotFound)) [] = Inr out
        \<and> map level_fields (tagged ''Database ErrRecordNotFound'' out) =
             [(WarnLevel, [zap_String ''sql'' ''show tables;'', zap_String ''time'' ''350.000ms'',
                           zap_Int64 ''rows'' 3])]
        \<and> tagged ''Database Error'' out = []
        \<and> map entry_level (tagged ''Database Slow Log'' out) = [WarnLevel]
        \<and> map entry_level (tagged ''Database Query'' out) = [DebugLevel]
        \<and> length out = 3)
   \<and> (\<exists>out. Trace (\<lambda>_. ''0.250ms'') example_Gorm app_stack 250000 (''show tables;'', 3)
               (Some (OtherError ''connection refused'')) [] = Inr out
        \<and> map level_fields (tagged ''Database Error'' out) =
             [(ErrorLevel, [zap_String ''sql'' ''show tables;'', zap_String ''time'' ''0.250ms'',
                            zap_Int64 ''rows'' 3, zap_Error (OtherError ''connection refused'')])]
        \<and> tagged ''Database ErrRecordNotFound'' out = []
        \<and> tagged ''Database Slow Log'' out = []
        \<and> map entry_level (tagged ''Database Query'' out) = [DebugLevel]
        \<and> length out = 2)
   \<and> (\<exists>out. Trace (\<lambda>_. ''0.250ms'') example_Gorm app_stack 250000 (''show tables;'', 3)
               None [] = Inr out
        \<and> map entry_level (tagged ''Database Query'' out) = [DebugLevel]
        \<and> length out = 1)"
proof -
  have w1: "\<exists>out. Trace (\<lambda>_. ''350.000ms'') example_Gorm app_stack 350000000 (''show tables;'', 3)
               (Some (Wrapped ''first'' ErrRecordNotFound)) [] = Inr out
        \<and> map level_fields (tagged ''Database ErrRecordNotFound'' out) =
             [(WarnLevel, [zap_String ''sql'' ''show tables;'', zap_String ''time'' ''350.000ms'',
                           zap_Int64 ''rows'' 3])]
        \<and> tagged ''Database Error'' out = []
        \<and> map entry_level (tagged ''Database Slow Log'' out) = [WarnLevel]
        \<and> map entry_level (tagged ''Database Query'' out) = [DebugLevel]
        \<and> length out = 3"
    using Trace_records [OF example_Gorm_ZapLogger, of "\<lambda>_. ''350.000ms''" app_stack 350000000
        "''show tables;''" 3 "Some (Wrapped ''first'' ErrRecordNotFound)"]
    by (simp add: example_Gorm_SlowThreshold numeral_3_eq_3)
  have w2: "\<exists>out. Trace (\<lambda>_. ''0.250ms'') example_Gorm app_stack 250000 (''show tables;'', 3)
               (Some (OtherError ''connection refused'')) [] = Inr out
        \<and> map level_fields (tagged ''Database Error'' out) =
             [(ErrorLevel, [zap_String ''sql'' ''show tables;'', zap_String ''time'' ''0.250ms'',
                            zap_Int64 ''rows'' 3, zap_Error (OtherError ''connection refused'')])]
        \<and> tagged ''Database ErrRecordNotFound'' out = []
        \<and> tagged ''Database Slow Log'' out = []
        \<and> map entry_level (tagged ''Database Query'' out) = [DebugLevel]
        \<and> length out = 2"
    using Trace_records [OF example_Gorm_ZapLogger, of "\<lambda>_. ''0.250ms''" app_stack 250000
        "''show tables;''" 3 "Some (OtherError ''connection refused'')"]
    by (simp add: example_Gorm_SlowThreshold numeral_2_eq_2)
  have w3: "\<exists>out. Trace (\<lambda>_. ''0.250ms'') example_Gorm app_stack 250000 (''show tables;'', 3)
               None [] = Inr out
        \<and> map entry_level (tagged ''Database Query'' out) = [DebugLevel]
        \<and> length out = 1"
    using Trace_records [OF example_Gorm_ZapLogger, of "\<lambda>_. ''0.250ms''" app_stack 250000
        "''show tables;''" 3 None]
    by (auto simp: example_Gorm_SlowThreshold)
  show ?thesis
    using w1 w2 w3 example_Gorm_ZapLogger by blast
qed

text \<open>
  Claim C2 says that the walk also passes over the files of this package and that the
  underlying logger's caller skip moves forward by the index of the frame. On the stack
  of an application query the frame found is 4 and the caller skip goes from 1 to 3, not
  to 5; and a file of this package above gorm's frame, at index 3, is the frame found.
\<close>

theorem logger_walk_counterexample:
  "logger example_Gorm app_stack = Inr (example_zap\<lparr>callerSkip := 3\<rparr>)
   \<and> claimed_logger example_zap app_stack = example_zap\<lparr>callerSkip := 5\<rparr>
   \<and> logger example_Gorm pkg_stack = Inr (example_zap\<lparr>callerSkip := 2\<rparr>)
   \<and> claimed_excluded (frame_file (pkg_stack ! 3))
   \<and> claimed_logger example_zap pkg_stack = example_zap\<lparr>callerSkip := 5\<rparr>"
  by (simp add: logger_def example_Gorm_ZapLogger logger_loop.simps runtime_Caller_def
      app_stack_def pkg_stack_def HasSuffix_def gormPackage_def zapGormPackage_def filepath_Join_def
      WithOptions_def example_zap_def claimed_logger_def claimed_excluded_def upt_2_15)

text \<open>
  Claim C2, as the code has it. The walk goes through the frames 2 to 14 and stops at the
  first one that exists and whose file does not end in \<open>_test.go\<close> and contains neither
  \<open>gorm.io/gorm\<close> nor \<open>moul.io/zapgorm2\<close>; the files of this package are not passed over.
  The logger used is the underlying one with its caller skip lowered by 2 and moved
  forward by the index of that frame. When every frame from 2 to 14 is missing or passed
  over, the logger used is the underlying one, unchanged, and the record goes through
  it. With an underlying logger, \<open>logger()\<close> always returns a logger and an emission
  through it adds exactly its record.
\<close>

theorem logger_walk:
  assumes "ZapLogger g = Some z"
  shows "(2 \<le> i \<and> i < 15 \<and> i < length stack \<and> \<not> skipped_file (frame_file (stack ! i))
          \<and> (\<forall>j. 2 \<le> j \<and> j < i \<longrightarrow> skipped_file (frame_file (stack ! j)))
          \<longrightarrow> logger g stack = Inr (z\<lparr>callerSkip := callerSkip z - 2 + int i\<rparr>))
     \<and> ((\<forall>j. 2 \<le> j \<and> j < 15 \<and> j < length stack \<longrightarrow> skipped_file (frame_file (stack ! j)))
          \<longrightarrow> logger g stack = Inr z
              \<and> logger_log g stack lv msg fs out = Inr (out @ [zap_entry z lv msg fs]))
     \<and> (\<exists>lg. logger g stack = Inr lg
               \<and> logger_log g stack lv msg fs out = Inr (out @ [zap_entry lg lv msg fs]))"
proof -
  obtain lg where lg: "logger g stack = Inr lg"
    using logger_returns [OF assms] by blast
  have e: "logger_log g stack lv msg fs out = Inr (out @ [zap_entry lg lv msg fs])"
    using lg by (simp add: logger_log_def zap_log_def)
  show ?thesis
    using logger_found [OF assms, of i stack] logger_none [OF assms, of stack] lg e
    by auto
qed

theorem logger_walk_witness:
  "ZapLogger example_Gorm = Some example_zap
   \<and> skipped_file (frame_file (app_stack ! 2))
   \<and> skipped_file (frame_file (app_stack ! 3))
   \<and> \<not> skipped_file (frame_file (app_stack ! 4))
   \<and> logger example_Gorm app_stack = Inr (example_zap\<lparr>callerSkip := 3\<rparr>)
   \<and> logger example_Gorm (take 4 app_stack) = Inr example_zap"
proof -
  have sk: "\<forall>j. 2 \<le> j \<and> j < 4 \<longrightarrow> skipped_file (frame_file (app_stack ! j))"
  proof (intro allI impI)
    fix j :: nat assume "2 \<le> j \<and> j < 4"
    then have "j = 2 \<or> j = 3" by auto
    then show "skipped_file (frame_file (app_stack ! j))"
      using app_stack_files by auto
  qed
  have sk': "\<forall>j. 2 \<le> j \<and> j < 15 \<and> j < length (take 4 app_stack)
      \<longrightarrow> skipped_file (frame_file (take 4 app_stack ! j))"
  proof (intro allI impI)
    fix j :: nat assume "2 \<le> j \<and> j < 15 \<and> j < length (take 4 app_stack)"
    then have "j = 2 \<or> j = 3" by (auto simp: app_stack_def)
    then show "skipped_file (frame_file (take 4 app_stack ! j))"
      using app_stack_files by auto
  qed
  have len: "length app_stack = 6" by (simp add: app_stack_def)
  show ?thesis
    using logger_walk [OF example_Gorm_ZapLogger, of 4 app_stack]
      logger_walk [OF example_Gorm_ZapLogger, of 4 "take 4 app_stack"]
      sk sk' app_stack_files(3) len
    by (simp add: example_Gorm_ZapLogger example_zap_def)
qed

lemma entry_caller_zap_entry:
  assumes "addCaller lg" and "0 \<le> 1 + callerSkip lg" and "nat (1 + callerSkip lg) < length stack"
  shows "entry_caller stack (zap_entry lg lv msg fs) = Some (stack ! nat (1 + callerSkip lg))"
  using assms by (simp add: entry_caller_def zap_entry_def)

lemma test_stack_files:
  "HasSuffix (frame_file (test_stack ! 2)) ''_test.go''"
  "HasSuffix (frame_file (test_stack ! 3)) ''_test.go''"
  "HasSuffix (frame_file (test_stack ! 4)) ''_test.go''"
  "\<not> skipped_file (frame_file (test_stack ! 5))"
  by (simp_all add: test_stack_def skipped_file_def HasSuffix_def)

text \<open>
  Claim C3 says that a record emitted by \<open>Trace\<close> through two wrapping layers of test code
  has the call site in the test as its caller. On the stack of such a test the caller is
  the frame of the test runner, above the test's frame.
\<close>

theorem Trace_caller_counterexample:
  "Trace (\<lambda>_. ''0.250ms'') example_Gorm test_stack 250000 (''show tables;'', 3) None [] =
     Inr [zap_entry (example_zap\<lparr>callerSkip := 4\<rparr>) DebugLevel ''Database Query''
            [zap_String ''sql'' ''show tables;'', zap_String ''time'' ''0.250ms'',
             zap_Int64 ''rows'' 3]]
   \<and> entry_caller test_stack
        (zap_entry (example_zap\<lparr>callerSkip := 4\<rparr>) DebugLevel ''Database Query''
            [zap_String ''sql'' ''show tables;'', zap_String ''time'' ''0.250ms'',
             zap_Int64 ''rows'' 3])
      = Some \<lparr> frame_file = ''/usr/local/go/src/testing/testing.go'', frame_line = 1690 \<rparr>
   \<and> test_stack ! 4 = \<lparr> frame_file = ''/src/logger/gorm_test.go'', frame_line = 23 \<rparr>
   \<and> entry_caller test_stack
        (zap_entry (example_zap\<lparr>callerSkip := 4\<rparr>) DebugLevel ''Database Query''
            [zap_String ''sql'' ''show tables;'', zap_String ''time'' ''0.250ms'',
             zap_Int64 ''rows'' 3])
      \<noteq> Some (test_stack ! 4)"
proof -
  have sk: "\<forall>j. 2 \<le> j \<and> j < 5 \<longrightarrow> skipped_file (frame_file (test_stack ! j))"
  proof (intro allI impI)
    fix j :: nat assume "2 \<le> j \<and> j < 5"
    then have "j = 2 \<or> j = 3 \<or> j = 4" by auto
    then show "skipped_file (frame_file (test_stack ! j))"
      using test_stack_files by (auto simp: skipped_file_def)
  qed
  have l: "5 < length test_stack" by (simp add: test_stack_def)
  have lg: "logger example_Gorm test_stack = Inr (example_zap\<lparr>callerSkip := 4\<rparr>)"
    using logger_found [OF example_Gorm_ZapLogger, of 5 test_stack] sk l test_stack_files(4)
    by (simp add: example_zap_def)
  show ?thesis
    unfolding Trace_entries [OF lg]
    by (simp add: example_Gorm_SlowThreshold entry_caller_def zap_entry_def example_zap_def
        test_stack_def)
qed

text \<open>
  Claim C3, as the code has it. When the two wrapping layers and the call site (the frames
  2, 3 and 4) are in test files, the walk passes over all three; with an underlying
  logger that adds the caller with skip 1, as \<open>NewLogger\<close> builds it, and with frame 5 in
  a file that the walk does not pass over (the test runner's), every record \<open>Trace\<close> emits
  has frame 5 as its caller, and \<open>Trace\<close> emits at least one.
\<close>

theorem Trace_caller_above_tests:
  assumes "ZapLogger g = Some z" and "addCaller z" and "callerSkip z = 1"
    and "5 < length stack"
    and "HasSuffix (frame_file (stack ! 2)) ''_test.go''"
    and "HasSuffix (frame_file (stack ! 3)) ''_test.go''"
    and "HasSuffix (frame_file (stack ! 4)) ''_test.go''"
    and "\<not> skipped_file (frame_file (stack ! 5))"
  shows "\<exists>out. Trace ms g stack d (sql, rows) err [] = Inr out
           \<and> set (map (entry_caller stack) out) = {Some (stack ! 5)}"
proof -
  have sk: "\<forall>j. 2 \<le> j \<and> j < 5 \<longrightarrow> skipped_file (frame_file (stack ! j))"
  proof (intro allI impI)
    fix j :: nat assume "2 \<le> j \<and> j < 5"
    then have "j = 2 \<or> j = 3 \<or> j = 4" by auto
    then show "skipped_file (frame_file (stack ! j))"
      using assms(5-7) by (auto simp: skipped_file_def)
  qed
  let ?lg = "z\<lparr>callerSkip := 4\<rparr>"
  have lg: "logger g stack = Inr ?lg"
    using logger_found [OF assms(1), of 5 stack] sk assms(3,4,8) by simp
  have c: "entry_caller stack (zap_entry ?lg lv msg fs) = Some (stack ! 5)" for lv msg fs
    using entry_caller_zap_entry [of ?lg stack lv msg fs] assms(2,4) by simp
  show ?thesis
    unfolding Trace_entries [OF lg]
    by (cases err) (auto simp: c)
qed

theorem Trace_caller_above_tests_witness:
  "ZapLogger example_Gorm = Some example_zap \<and> addCaller example_zap \<and> callerSkip example_zap = 1
   \<and> 5 < length test_stack
   \<and> HasSuffix (frame_file (test_stack ! 2)) ''_test.go''
   \<and> HasSuffix (frame_file (test_stack ! 3)) ''_test.go''
   \<and> HasSuffix (frame_file (test_stack ! 4)) ''_test.go''
   \<and> \<not> skipped_file (frame_file (test_stack ! 5))
   \<and> (\<exists>out. Trace (\<lambda>_. ''0.250ms'') example_Gorm test_stack 250000 (''show tables;'', 3) None []
                = Inr out
        \<and> set (map (entry_caller test_stack) out) =
            {Some \<lparr> frame_file = ''/usr/local/go/src/testing/testing.go'', frame_line = 1690 \<rparr>})"
proof -
  have a: "addCaller example_zap" "callerSkip example_zap = 1"
    by (simp_all add: example_zap_def)
  have l: "5 < length test_stack" by (simp add: test_stack_def)
  have f: "test_stack ! 5 =
      \<lparr> frame_file = ''/usr/local/go/src/testing/testing.go'', frame_line = 1690 \<rparr>"
    by (simp add: test_stack_def)
  show ?thesis
    using Trace_caller_above_tests [OF example_Gorm_ZapLogger a l test_stack_files,
        of "\<lambda>_. ''0.250ms''" 250000 "''show tables;''" 3 None]
      a l test_stack_files example_Gorm_ZapLogger
    by (simp add: f)
qed

end
